theory Spec2Isabelle
  imports Main
begin

section \<open>Strings and numbers of the script\<close>

text \<open>
  The script \<^verbatim>\<open>static/app.js\<close> works on JavaScript strings and numbers. Strings are
  modelled as \<^typ>\<open>string\<close>. Numbers are modelled as mathematical integers (\<open>Num\<close>) or the
  value \<open>NaN\<close>. A JavaScript number is a double: it is the integer it denotes up to
  \<open>2^53 - 1\<close> (\<open>Number.MAX_SAFE_INTEGER\<close>), and the statements below about numeric values
  are made for that range.
\<close>

definition is_digit :: "char \<Rightarrow> bool" where
  "is_digit c = (c \<in> set ''0123456789'')"

text \<open>The white space that \<open>parseInt\<close> skips (the ASCII part of it).\<close>

definition is_space :: "char \<Rightarrow> bool" where
  "is_space c = (c \<in> set [CHR '' '', CHR 0x09, CHR 0x0A, CHR 0x0B, CHR 0x0C, CHR 0x0D])"

definition digit_val :: "char \<Rightarrow> nat" where
  "digit_val c = of_char c - 48"

definition digit_char :: "nat \<Rightarrow> char" where
  "digit_char d = ''0123456789'' ! d"

text \<open>\<open>String(n)\<close> and template interpolation \<open>${n}\<close> of a non-negative integer.\<close>

fun toString :: "nat \<Rightarrow> string" where
  "toString n =
     (if n < 10 then [digit_char n] else toString (n div 10) @ [digit_char (n mod 10)])"

declare toString.simps [simp del]

definition digits_value :: "string \<Rightarrow> nat" where
  "digits_value ds = foldl (\<lambda>acc c. 10 * acc + digit_val c) 0 ds"

datatype jsnum = NaN | Num int

text \<open>
  \<open>parseInt(str, 10)\<close>: leading white space is skipped, one sign is read, then the longest
  prefix of decimal digits; with no digit the result is \<open>NaN\<close>.
\<close>

definition parseInt :: "string \<Rightarrow> jsnum" where
  "parseInt str =
     (let s = dropWhile is_space str;
          neg = (case s of [] \<Rightarrow> False | c # r \<Rightarrow> c = CHR ''-'');
          s' = (case s of [] \<Rightarrow> [] | c # r \<Rightarrow> if c = CHR ''-'' \<or> c = CHR ''+'' then r else s);
          z = takeWhile is_digit s'
      in if z = [] then NaN
         else Num ((if neg then - 1 else 1) * int (digits_value z)))"


text \<open>The comparisons \<open>i < n\<close> and \<open>n > 0\<close> of \<open>renderChildren\<close>; both are false on \<open>NaN\<close>.\<close>

definition js_lt :: "nat \<Rightarrow> jsnum \<Rightarrow> bool" where
  "js_lt i n = (case n of NaN \<Rightarrow> False | Num k \<Rightarrow> int i < k)"

definition js_positive :: "jsnum \<Rightarrow> bool" where
  "js_positive n = (case n of NaN \<Rightarrow> False | Num k \<Rightarrow> k > 0)"

text \<open>
  \<open>num.toLocaleString('en-US')\<close> of an integer: the decimal digits in groups of three from
  the right, separated by commas. \<open>group3\<close> works on the reversed digit string.
\<close>

fun group3 :: "string \<Rightarrow> string" where
  "group3 (a # b # c # d # ds) = a # b # c # CHR '','' # group3 (d # ds)"
| "group3 ds = ds"

definition toLocaleString :: "int \<Rightarrow> string" where
  "toLocaleString k =
     (if k < 0 then [CHR ''-''] else []) @ rev (group3 (rev (toString (nat \<bar>k\<bar>))))"

text \<open>
  \<^verbatim>\<open>function formatCurrency(val) {
    const num = parseInt(val.replace(/[^0-9]/g, ''), 10);
    if (isNaN(num)) return '';
    return num.toLocaleString('en-US'); }\<close>
\<close>

definition formatCurrency :: "string \<Rightarrow> string" where
  "formatCurrency val =
     (case parseInt (filter is_digit val) of
        NaN \<Rightarrow> []
      | Num num \<Rightarrow> toLocaleString num)"

text \<open>The focus handler's \<open>input.value.replace(/,/g, '')\<close>.\<close>

definition strip_commas :: "string \<Rightarrow> string" where
  "strip_commas val = filter (\<lambda>c. c \<noteq> CHR '','') val"


section \<open>The document\<close>

text \<open>
  Elements live in a store addressed by \<open>node\<close>; the script holds such addresses in its
  variables and closures. The document is the list of attached elements in document
  order. An element records the attributes and properties the script reads or writes,
  and the addresses of its ancestors (nearest first).
\<close>

type_synonym node = nat

record element =
  el_id :: "string option"
  el_name :: "string option"
  classList :: "string list"
  data_step :: "string option"
  data_child :: "string option"
  attrs :: "(string \<times> string) list"
  checked :: bool
  el_value :: string
  el_options :: "string list"
  style_visibility :: string
  style_display :: string
  ancestors :: "node list"

definition new_element :: element where
  "new_element =
     \<lparr>el_id = None, el_name = None, classList = [], data_step = None, data_child = None,
      attrs = [], checked = False, el_value = [], el_options = [],
      style_visibility = [], style_display = [], ancestors = []\<rparr>"

definition classList_add :: "string \<Rightarrow> element \<Rightarrow> element" where
  "classList_add c e = (if c \<in> set (classList e) then e else e\<lparr>classList := classList e @ [c]\<rparr>)"

definition classList_remove :: "string \<Rightarrow> element \<Rightarrow> element" where
  "classList_remove c e = e\<lparr>classList := removeAll c (classList e)\<rparr>"

text \<open>\<open>classList.toggle(c, force)\<close>: with the second argument it adds or removes.\<close>

definition classList_toggle :: "string \<Rightarrow> bool \<Rightarrow> element \<Rightarrow> element" where
  "classList_toggle c force e = (if force then classList_add c e else classList_remove c e)"

datatype event = Click | Change | Blur | Focus

text \<open>The closures the script registers as listeners, with the elements they capture.\<close>

datatype handler =
    NextClick
  | PrevClick
  | ToggleSection node node
  | RenderChildren
  | FormatOnBlur node
  | StripOnFocus node

datatype error = TypeError

text \<open>
  The state of the page: the store, the document, the next free address, the registered
  listeners, the page-provided \<open>ALL_LOCATIONS\<close>, and the variables of the script's
  load handler (an absent element is \<open>null\<close>, here \<open>None\<close>).
\<close>

record state =
  heap :: "node \<Rightarrow> element"
  doc :: "node list"
  next_node :: node
  listeners :: "(node \<times> event \<times> handler) list"
  ALL_LOCATIONS :: "string list"
  steps :: "node list"
  progressSteps :: "node list"
  progressLines :: "node list"
  prevBtn :: "node option"
  nextBtn :: "node option"
  calcBtn :: "node option"
  currentStep :: nat
  numChildrenSelect :: "node option"
  childrenContainer :: "node option"
  grandchildrenSection :: "node option"

text \<open>\<open>const totalSteps = steps.length\<close>; \<open>steps\<close> is a static node list.\<close>

definition totalSteps :: "state \<Rightarrow> nat" where
  "totalSteps st = length (steps st)"

text \<open>
  A call either returns or throws; an exception leaves the changes made before it.
\<close>

datatype outcome = Done state | Throw error state

fun state_of :: "outcome \<Rightarrow> state" where
  "state_of (Done st) = st"
| "state_of (Throw e st) = st"

definition has_class :: "state \<Rightarrow> node \<Rightarrow> string \<Rightarrow> bool" where
  "has_class st a c = (c \<in> set (classList (heap st a)))"

definition getElementById :: "string \<Rightarrow> state \<Rightarrow> node option" where
  "getElementById i st = find (\<lambda>a. el_id (heap st a) = Some i) (doc st)"

definition querySelectorAll_class :: "string \<Rightarrow> state \<Rightarrow> node list" where
  "querySelectorAll_class c st = filter (\<lambda>a. has_class st a c) (doc st)"

text \<open>\<open>document.querySelector(`.step-content[data-step="${n}"]`)\<close>\<close>

definition querySelector_step :: "nat \<Rightarrow> state \<Rightarrow> node option" where
  "querySelector_step n st =
     find (\<lambda>a. has_class st a ''step-content'' \<and> data_step (heap st a) = Some (toString n))
       (doc st)"

definition update_el :: "node \<Rightarrow> (element \<Rightarrow> element) \<Rightarrow> state \<Rightarrow> state" where
  "update_el a f st = st\<lparr>heap := (heap st)(a := f (heap st a))\<rparr>"

text \<open>\<open>nodes.forEach((x, i) => ...)\<close> for a callback that changes the element \<open>x\<close>.\<close>

fun forEach_el ::
  "(nat \<Rightarrow> element \<Rightarrow> element) \<Rightarrow> nat \<Rightarrow> node list \<Rightarrow> (node \<Rightarrow> element) \<Rightarrow> node \<Rightarrow> element"
where
  "forEach_el f i [] h = h"
| "forEach_el f i (a # as) h = forEach_el f (Suc i) as (h(a := f i (h a)))"

definition addEventListener :: "node \<Rightarrow> event \<Rightarrow> handler \<Rightarrow> state \<Rightarrow> state" where
  "addEventListener a ev h st = st\<lparr>listeners := listeners st @ [(a, ev, h)]\<rparr>"

definition is_descendant :: "state \<Rightarrow> node \<Rightarrow> node \<Rightarrow> bool" where
  "is_descendant st c a = (c \<in> set (ancestors (heap st a)))"

text \<open>\<open>c.innerHTML = ''\<close>: every descendant of \<open>c\<close> leaves the document.\<close>

definition clear_innerHTML :: "node \<Rightarrow> state \<Rightarrow> state" where
  "clear_innerHTML c st = st\<lparr>doc := filter (\<lambda>a. \<not> is_descendant st c a) (doc st)\<rparr>"

text \<open>
  Parsed markup: the elements of a fragment in document order, each with the positions
  (in the fragment) of its ancestors, nearest first.
\<close>

type_synonym fragment = "(element \<times> nat list) list"

text \<open>
  \<open>c.insertAdjacentHTML('beforeend', html)\<close>: the elements of the fragment get fresh
  addresses and become the last descendants of \<open>c\<close>. When \<open>c\<close> is itself detached, so
  are they.
\<close>

definition insertAdjacentHTML_beforeend :: "node \<Rightarrow> fragment \<Rightarrow> state \<Rightarrow> state" where
  "insertAdjacentHTML_beforeend c frag st =
     (let base = next_node st;
          up = c # ancestors (heap st c);
          new = [base ..< base + length frag];
          before = takeWhile (\<lambda>a. a \<noteq> c) (doc st);
          from_c = dropWhile (\<lambda>a. a \<noteq> c) (doc st)
      in st\<lparr>heap := (\<lambda>a. if base \<le> a \<and> a < base + length frag
                          then (fst (frag ! (a - base)))
                                 \<lparr>ancestors := map (\<lambda>k. base + k) (snd (frag ! (a - base))) @ up\<rparr>
                          else heap st a),
            doc := (case from_c of
                      [] \<Rightarrow> doc st
                    | x # after \<Rightarrow>
                        before @ x # takeWhile (is_descendant st c) after @ new
                          @ dropWhile (is_descendant st c) after),
            next_node := base + length frag\<rparr>)"


section \<open>Currency fields\<close>

text \<open>
  \<^verbatim>\<open>function bindCurrencyFormat(input) {
    input.addEventListener('blur', () => { input.value = formatCurrency(input.value); });
    input.addEventListener('focus', () => { input.value = input.value.replace(/,/g, ''); }); }\<close>
\<close>

definition bindCurrencyFormat :: "node \<Rightarrow> state \<Rightarrow> state" where
  "bindCurrencyFormat input st =
     addEventListener input Focus (StripOnFocus input)
       (addEventListener input Blur (FormatOnBlur input) st)"


section \<open>Dynamic children forms\<close>

definition child_id :: "nat \<Rightarrow> string \<Rightarrow> string" where
  "child_id index field = ''child_'' @ toString index @ ''_'' @ field"

definition child_field :: "nat \<Rightarrow> string \<Rightarrow> element" where
  "child_field index field =
     new_element\<lparr>el_id := Some (child_id index field), el_name := Some (child_id index field)\<rparr>"

text \<open>
  The markup of \<open>childFormHTML(index)\<close>, parsed: the card and the elements in it that
  carry an identifier. The headings, labels, rows and options around them carry none
  and are left out. The options of the location list are \<open>ALL_LOCATIONS\<close>, taken to be
  plain text. A select element without a selected option has the value of its first
  option.
\<close>

definition childFormHTML :: "string list \<Rightarrow> nat \<Rightarrow> fragment" where
  "childFormHTML locs index =
     [ (new_element\<lparr>classList := [''child-card''], data_child := Some (toString index)\<rparr>, []),
       ((child_field index ''age'')
          \<lparr>attrs := [(''type'', ''number''), (''min'', ''0''), (''max'', ''50'')],
           classList := [''input-compact''], el_value := ''5''\<rparr>, [0]),
       ((child_field index ''private_school'')
          \<lparr>attrs := [(''type'', ''checkbox'')], checked := True\<rparr>, [0]),
       ((child_field index ''private_university'')
          \<lparr>attrs := [(''type'', ''checkbox'')], checked := True\<rparr>, [0]),
       ((child_field index ''buy_house'')
          \<lparr>attrs := [(''type'', ''checkbox'')], checked := True\<rparr>, [0]),
       (new_element\<lparr>el_id := Some (child_id index ''house_section''),
                     classList := [''conditional-section'', ''visible'']\<rparr>, [0]),
       ((child_field index ''house_location'')
          \<lparr>el_options := locs, el_value := (case locs of [] \<Rightarrow> [] | loc # _ \<Rightarrow> loc)\<rparr>, [5, 0]),
       ((child_field index ''house_bedrooms'')
          \<lparr>el_options := [''2'', ''3'', ''4'', ''5'', ''6''], el_value := ''4''\<rparr>, [5, 0]),
       ((child_field index ''annual_expenses'')
          \<lparr>attrs := [(''type'', ''text''), (''inputmode'', ''numeric'')],
           classList := [''input-currency''], el_value := ''300,000''\<rparr>, [0]) ]"

text \<open>The body of the loop of \<open>renderChildren\<close>, for index \<open>i\<close> and container \<open>c\<close>.\<close>

definition render_child :: "nat \<Rightarrow> node \<Rightarrow> state \<Rightarrow> state" where
  "render_child i c st =
     (let st1 = insertAdjacentHTML_beforeend c (childFormHTML (ALL_LOCATIONS st) i) st;
          st2 = (case getElementById (child_id i ''buy_house'') st1 of
                   None \<Rightarrow> st1
                 | Some cb \<Rightarrow>
                     (case getElementById (child_id i ''house_section'') st1 of
                        None \<Rightarrow> st1
                      | Some section \<Rightarrow> addEventListener cb Change (ToggleSection cb section) st1))
      in case getElementById (child_id i ''annual_expenses'') st2 of
           None \<Rightarrow> st2
         | Some expInput \<Rightarrow> bindCurrencyFormat expInput st2)"

text \<open>\<open>for (let i = 0; i < n; i++) { ... }\<close>, entered at \<open>i\<close>.\<close>

function render_loop :: "nat \<Rightarrow> jsnum \<Rightarrow> node \<Rightarrow> state \<Rightarrow> state" where
  "render_loop i n c st = (if js_lt i n then render_loop (Suc i) n c (render_child i c st) else st)"
  by pat_completeness auto
termination
  by (relation "measure (\<lambda>(i, n, c, st). case n of NaN \<Rightarrow> 0 | Num k \<Rightarrow> nat (k - int i))")
     (auto simp: js_lt_def split: jsnum.splits)

declare render_loop.simps [simp del]

definition renderChildren :: "state \<Rightarrow> outcome" where
  "renderChildren st =
     (case numChildrenSelect st of
        None \<Rightarrow> Throw TypeError st
      | Some sel \<Rightarrow>
          let n = parseInt (el_value (heap st sel)) in
          (case childrenContainer st of
             None \<Rightarrow> Throw TypeError st
           | Some c \<Rightarrow>
               let st1 = render_loop 0 n c (clear_innerHTML c st) in
               (case grandchildrenSection st1 of
                  None \<Rightarrow> Throw TypeError st1
                | Some g \<Rightarrow>
                    Done (update_el g
                      (\<lambda>e. e\<lparr>style_display := (if js_positive n then ''block'' else ''none'')\<rparr>)
                      st1))))"


section \<open>Step navigation\<close>

text \<open>The callback of \<open>progressSteps.forEach\<close> in \<open>showStep(n)\<close>.\<close>

definition progress_mark :: "nat \<Rightarrow> nat \<Rightarrow> element \<Rightarrow> element" where
  "progress_mark n i ps =
     (let stepNum = i + 1;
          ps' = classList_remove ''completed'' (classList_remove ''active'' ps)
      in if stepNum = n then classList_add ''active'' ps'
         else if stepNum < n then classList_add ''completed'' ps'
         else ps')"

definition line_mark :: "nat \<Rightarrow> nat \<Rightarrow> element \<Rightarrow> element" where
  "line_mark n i line = classList_toggle ''active'' (int i < int n - 1) line"

definition showStep :: "nat \<Rightarrow> state \<Rightarrow> outcome" where
  "showStep n st =
     (let st1 = st\<lparr>heap := forEach_el (\<lambda>i. classList_remove ''active'') 0 (steps st) (heap st)\<rparr>
      in case querySelector_step n st1 of
           None \<Rightarrow> Throw TypeError st1
         | Some panel \<Rightarrow>
             let st2 = update_el panel (classList_add ''active'') st1;
                 st3 = st2\<lparr>heap := forEach_el (progress_mark n) 0 (progressSteps st2) (heap st2)\<rparr>;
                 st4 = st3\<lparr>heap := forEach_el (line_mark n) 0 (progressLines st3) (heap st3)\<rparr>
             in (case prevBtn st4 of
                   None \<Rightarrow> Throw TypeError st4
                 | Some pb \<Rightarrow>
                     let st5 = update_el pb
                           (\<lambda>e. e\<lparr>style_visibility := (if n = 1 then ''hidden'' else ''visible'')\<rparr>)
                           st4
                     in (case nextBtn st5 of
                           None \<Rightarrow> Throw TypeError st5
                         | Some nb \<Rightarrow>
                             let st6 = update_el nb
                                   (\<lambda>e. e\<lparr>style_display :=
                                      (if n = totalSteps st5 then ''none'' else ''inline-flex'')\<rparr>)
                                   st5
                             in (case calcBtn st6 of
                                   None \<Rightarrow> Throw TypeError st6
                                 | Some cb \<Rightarrow>
                                     let st7 = update_el cb
                                           (\<lambda>e. e\<lparr>style_display :=
                                              (if n = totalSteps st6 then ''inline-flex'' else ''none'')\<rparr>)
                                           st6;
                                         st8 = st7\<lparr>currentStep := n\<rparr>
                                     in if n = 4 then renderChildren st8 else Done st8))))"


section \<open>Toggle conditional sections\<close>

text \<open>
  \<^verbatim>\<open>function bindToggle(checkboxId, sectionId) {
    const cb = document.getElementById(checkboxId);
    const section = document.getElementById(sectionId);
    if (!cb || !section) return;
    cb.addEventListener('change', () => { section.classList.toggle('visible', cb.checked); }); }\<close>
\<close>

definition bindToggle :: "string \<Rightarrow> string \<Rightarrow> state \<Rightarrow> outcome" where
  "bindToggle checkboxId sectionId st =
     (case getElementById checkboxId st of
        None \<Rightarrow> Done st
      | Some cb \<Rightarrow>
          (case getElementById sectionId st of
             None \<Rightarrow> Done st
           | Some section \<Rightarrow> Done (addEventListener cb Change (ToggleSection cb section) st)))"


section \<open>Events\<close>

text \<open>What each registered listener does when it is called.\<close>

fun run_handler :: "handler \<Rightarrow> state \<Rightarrow> outcome" where
  "run_handler NextClick st =
     (if currentStep st < totalSteps st then showStep (currentStep st + 1) st else Done st)"
| "run_handler PrevClick st =
     (if currentStep st > 1 then showStep (currentStep st - 1) st else Done st)"
| "run_handler (ToggleSection cb section) st =
     Done (update_el section (classList_toggle ''visible'' (checked (heap st cb))) st)"
| "run_handler RenderChildren st = renderChildren st"
| "run_handler (FormatOnBlur input) st =
     Done (update_el input (\<lambda>e. e\<lparr>el_value := formatCurrency (el_value e)\<rparr>) st)"
| "run_handler (StripOnFocus input) st =
     Done (update_el input (\<lambda>e. e\<lparr>el_value := strip_commas (el_value e)\<rparr>) st)"

text \<open>
  The browser calls the listeners registered on the target for the event, in the order
  of registration; an exception of one listener is reported and the next one runs.
\<close>

definition handlers_for :: "event \<Rightarrow> node \<Rightarrow> state \<Rightarrow> handler list" where
  "handlers_for ev a st = map (\<lambda>l. snd (snd l)) (filter (\<lambda>l. fst l = a \<and> fst (snd l) = ev) (listeners st))"

definition dispatch :: "event \<Rightarrow> node \<Rightarrow> state \<Rightarrow> state" where
  "dispatch ev a st = foldl (\<lambda>s h. state_of (run_handler h s)) st (handlers_for ev a st)"

text \<open>The user sets a checkbox; the browser updates it and fires \<open>change\<close>.\<close>

definition user_check :: "node \<Rightarrow> bool \<Rightarrow> state \<Rightarrow> state" where
  "user_check cb b st = dispatch Change cb (update_el cb (\<lambda>e. e\<lparr>checked := b\<rparr>) st)"

datatype click = Next | Prev

text \<open>
  A click on the next or on the previous button calls the listener registered for it:
  \<^verbatim>\<open>nextBtn.addEventListener('click', () => { if (currentStep < totalSteps) showStep(currentStep + 1); });
  prevBtn.addEventListener('click', () => { if (currentStep > 1) showStep(currentStep - 1); });\<close>
\<close>

fun user_click :: "click \<Rightarrow> state \<Rightarrow> state" where
  "user_click Next st = state_of (run_handler NextClick st)"
| "user_click Prev st = state_of (run_handler PrevClick st)"

fun user_clicks :: "click list \<Rightarrow> state \<Rightarrow> state" where
  "user_clicks [] st = st"
| "user_clicks (c # cs) st = user_clicks cs (user_click c st)"



section \<open>The page the script expects\<close>

text \<open>
  The script depends on the markup of the page: the elements it looks up by identifier
  exist, the step panels are tagged with the step numbers \<open>1, ..., totalSteps\<close>, and step
  panels, progress indicators and connecting lines are different elements. Elements that
  exist have addresses below \<open>next_node\<close>.
\<close>

definition bound_to :: "state \<Rightarrow> node option \<Rightarrow> string \<Rightarrow> bool" where
  "bound_to st v i =
     (case v of None \<Rightarrow> False | Some a \<Rightarrow> a < next_node st \<and> el_id (heap st a) = Some i)"

definition panels_tagged :: "state \<Rightarrow> bool" where
  "panels_tagged st =
     (\<forall>n\<in>set [1 ..< Suc (totalSteps st)].
        case querySelector_step n st of None \<Rightarrow> False | Some p \<Rightarrow> p \<in> set (steps st))"

definition page_ok :: "state \<Rightarrow> bool" where
  "page_ok st =
     (bound_to st (prevBtn st) ''prev-btn'' \<and>
      bound_to st (nextBtn st) ''next-btn'' \<and>
      bound_to st (calcBtn st) ''calculate-btn'' \<and>
      bound_to st (numChildrenSelect st) ''num_children'' \<and>
      bound_to st (childrenContainer st) ''children-container'' \<and>
      bound_to st (grandchildrenSection st) ''grandchildren-section'' \<and>
      distinct (steps st @ progressSteps st @ progressLines st) \<and>
      (\<forall>a\<in>set (steps st @ progressSteps st @ progressLines st). a < next_node st) \<and>
      panels_tagged st)"

text \<open>
  The state of \<open>showStep(n)\<close> at \<open>currentStep = n\<close>, when the panel \<open>p\<close> and the three
  buttons were found: \<open>shown_heap\<close> is the store after the class updates.
\<close>

definition shown_heap :: "nat \<Rightarrow> node \<Rightarrow> state \<Rightarrow> node \<Rightarrow> element" where
  "shown_heap n p st =
     (let h1 = forEach_el (\<lambda>i. classList_remove ''active'') 0 (steps st) (heap st);
          h2 = h1(p := classList_add ''active'' (h1 p));
          h3 = forEach_el (progress_mark n) 0 (progressSteps st) h2
      in forEach_el (line_mark n) 0 (progressLines st) h3)"

definition shown :: "nat \<Rightarrow> node \<Rightarrow> node \<Rightarrow> node \<Rightarrow> node \<Rightarrow> state \<Rightarrow> state" where
  "shown n p pb nb cb st =
     (update_el cb
        (\<lambda>e. e\<lparr>style_display := (if n = totalSteps st then ''inline-flex'' else ''none'')\<rparr>)
        (update_el nb
           (\<lambda>e. e\<lparr>style_display := (if n = totalSteps st then ''none'' else ''inline-flex'')\<rparr>)
           (update_el pb
              (\<lambda>e. e\<lparr>style_visibility := (if n = 1 then ''hidden'' else ''visible'')\<rparr>)
              (st\<lparr>heap := shown_heap n p st\<rparr>))))
     \<lparr>currentStep := n\<rparr>"


section \<open>Loading the page\<close>

text \<open>
  The listener for \<open>DOMContentLoaded\<close>, from top to bottom: it looks up the elements,
  registers the click listeners, shows step 1, binds the four fixed toggles, looks up
  the elements of the children form, registers \<open>renderChildren\<close> on the selector and binds
  the currency fields. An exception on the way ends it.
\<close>

definition unloaded :: "(node \<Rightarrow> element) \<Rightarrow> node list \<Rightarrow> node \<Rightarrow> string list \<Rightarrow> state" where
  "unloaded h d free locs =
     \<lparr>heap = h, doc = d, next_node = free, listeners = [], ALL_LOCATIONS = locs,
      steps = [], progressSteps = [], progressLines = [],
      prevBtn = None, nextBtn = None, calcBtn = None, currentStep = 1,
      numChildrenSelect = None, childrenContainer = None, grandchildrenSection = None\<rparr>"

definition load :: "(node \<Rightarrow> element) \<Rightarrow> node list \<Rightarrow> node \<Rightarrow> string list \<Rightarrow> error + state" where
  "load h d free locs =
     (let page = unloaded h d free locs;
          st0 = page\<lparr>steps := querySelectorAll_class ''step-content'' page,
                     progressSteps := querySelectorAll_class ''progress-step'' page,
                     progressLines := querySelectorAll_class ''progress-line'' page,
                     prevBtn := getElementById ''prev-btn'' page,
                     nextBtn := getElementById ''next-btn'' page,
                     calcBtn := getElementById ''calculate-btn'' page\<rparr>
      in case nextBtn st0 of
           None \<Rightarrow> Inl TypeError
         | Some nb \<Rightarrow>
             (case prevBtn st0 of
                None \<Rightarrow> Inl TypeError
              | Some pb \<Rightarrow>
                  (case showStep 1 (addEventListener pb Click PrevClick
                                     (addEventListener nb Click NextClick st0)) of
                     Throw e s \<Rightarrow> Inl e
                   | Done st1 \<Rightarrow>
                       let st2 = state_of (bindToggle ''has_vacation_home'' ''vacation-home-section'' st1);
                           st3 = state_of (bindToggle ''has_sailboat'' ''sailboat-section'' st2);
                           st4 = state_of (bindToggle ''has_yacht'' ''yacht-section'' st3);
                           st5 = state_of (bindToggle ''provide_for_grandchildren'' ''gc-details-section'' st4);
                           st6 = st5\<lparr>numChildrenSelect := getElementById ''num_children'' st5,
                                      childrenContainer := getElementById ''children-container'' st5,
                                      grandchildrenSection := getElementById ''grandchildren-section'' st5\<rparr>
                       in (case numChildrenSelect st6 of
                             None \<Rightarrow> Inl TypeError
                           | Some sel \<Rightarrow>
                               Inr (foldl (\<lambda>s input. bindCurrencyFormat input s)
                                      (addEventListener sel Change RenderChildren st6)
                                      (querySelectorAll_class ''input-currency'' st6))))))"


section \<open>An example page\<close>

text \<open>
  The markup of a page of five steps with the elements the script looks up, in document
  order; the address of an element is its position.
\<close>

definition tagged :: "string \<Rightarrow> string list \<Rightarrow> node list \<Rightarrow> element" where
  "tagged i cs up =
     new_element\<lparr>el_id := (if i = [] then None else Some i), classList := cs, ancestors := up\<rparr>"

definition example_markup :: "element list" where
  "example_markup =
     [ tagged [] [''progress-step''] [],
       tagged [] [''progress-line''] [],
       tagged [] [''progress-step''] [],
       tagged [] [''progress-line''] [],
       tagged [] [''progress-step''] [],
       tagged [] [''progress-line''] [],
       tagged [] [''progress-step''] [],
       tagged [] [''progress-line''] [],
       tagged [] [''progress-step''] [],
       (tagged [] [''step-content'', ''active''] [])\<lparr>data_step := Some ''1''\<rparr>,
       (tagged ''net_worth'' [''input-currency''] [9])\<lparr>el_value := ''2,500,000''\<rparr>,
       (tagged [] [''step-content''] [])\<lparr>data_step := Some ''2''\<rparr>,
       tagged ''has_vacation_home'' [] [11],
       tagged ''vacation-home-section'' [''conditional-section''] [11],
       (tagged [] [''step-content''] [])\<lparr>data_step := Some ''3''\<rparr>,
       (tagged ''num_children'' [] [14])
         \<lparr>el_value := ''2'', el_options := [''0'', ''1'', ''2'', ''3'']\<rparr>,
       (tagged [] [''step-content''] [])\<lparr>data_step := Some ''4''\<rparr>,
       tagged ''children-container'' [] [16],
       tagged ''grandchildren-section'' [] [16],
       tagged ''provide_for_grandchildren'' [] [18, 16],
       tagged ''gc-details-section'' [''conditional-section''] [18, 16],
       (tagged [] [''step-content''] [])\<lparr>data_step := Some ''5''\<rparr>,
       tagged ''prev-btn'' [] [],
       tagged ''next-btn'' [] [],
       tagged ''calculate-btn'' [] [] ]"

definition store_of :: "element list \<Rightarrow> node \<Rightarrow> element" where
  "store_of es a = (if a < length es then es ! a else new_element)"

definition example_unloaded :: state where
  "example_unloaded = unloaded (store_of example_markup) [0 ..< 25] 25 [''Austin'', ''Boston'']"

text \<open>
  The page after the script has loaded on this markup (\<open>example_page_loaded\<close> below):
  step 1 is shown and the listeners are registered.
\<close>

definition example_page :: state where
  "example_page =
     \<lparr>heap = store_of
         (example_markup
            [0 := tagged [] [''progress-step'', ''active''] [],
             22 := (tagged ''prev-btn'' [] [])\<lparr>style_visibility := ''hidden''\<rparr>,
             23 := (tagged ''next-btn'' [] [])\<lparr>style_display := ''inline-flex''\<rparr>,
             24 := (tagged ''calculate-btn'' [] [])\<lparr>style_display := ''none''\<rparr>]),
      doc = [0 ..< 25], next_node = 25,
      listeners =
        [(23, Click, NextClick), (22, Click, PrevClick),
         (12, Change, ToggleSection 12 13), (19, Change, ToggleSection 19 20),
         (15, Change, RenderChildren),
         (10, Blur, FormatOnBlur 10), (10, Focus, StripOnFocus 10)],
      ALL_LOCATIONS = [''Austin'', ''Boston''],
      steps = [9, 11, 14, 16, 21], progressSteps = [0, 2, 4, 6, 8],
      progressLines = [1, 3, 5, 7],
      prevBtn = Some 22, nextBtn = Some 23, calcBtn = Some 24, currentStep = 1,
      numChildrenSelect = Some 15, childrenContainer = Some 17,
      grandchildrenSection = Some 18\<rparr>"


section \<open>Predicates of the statements\<close>

text \<open>Every \<open>change\<close> listener of the checkbox \<open>cb\<close> is a section toggle bound to \<open>cb\<close>.\<close>

definition only_toggles :: "node \<Rightarrow> state \<Rightarrow> bool" where
  "only_toggles cb st =
     list_all (\<lambda>h. case h of ToggleSection c s \<Rightarrow> c = cb | _ \<Rightarrow> False) (handlers_for Change cb st)"





text \<open>
  The element at position \<open>j\<close> of the block of child \<open>k\<close>, as \<open>renderChildren\<close> called in
  the state \<open>st\<close> creates it in the container \<open>c\<close>, at the address
  \<open>next_node st + 9 * k + j\<close>.
\<close>

definition rendered_element :: "state \<Rightarrow> node \<Rightarrow> nat \<Rightarrow> nat \<Rightarrow> element" where
  "rendered_element st c k j =
     (fst (childFormHTML (ALL_LOCATIONS st) k ! j))
       \<lparr>ancestors := map (\<lambda>i. next_node st + 9 * k + i) (snd (childFormHTML (ALL_LOCATIONS st) k ! j))
                       @ c # ancestors (heap st c)\<rparr>"

text \<open>The listeners that the loop of \<open>renderChildren\<close> registers for the first \<open>k\<close> blocks.\<close>

definition child_listeners :: "node \<Rightarrow> nat \<Rightarrow> (node \<times> event \<times> handler) list" where
  "child_listeners base k =
     concat (map (\<lambda>i. [(base + 9 * i + 4, Change, ToggleSection (base + 9 * i + 4) (base + 9 * i + 5)),
                       (base + 9 * i + 8, Blur, FormatOnBlur (base + 9 * i + 8)),
                       (base + 9 * i + 8, Focus, StripOnFocus (base + 9 * i + 8))])
               [0 ..< k])"



section \<open>Properties of the strings and numbers\<close>

































lemma listeners_update_el [simp]: "listeners (update_el a f st) = listeners st"
  by (simp add: update_el_def)

lemma handlers_for_update_el [simp]: "handlers_for ev a (update_el b f st) = handlers_for ev a st"
  by (simp add: handlers_for_def)

lemma heap_update_el: "heap (update_el a f st) b = (if b = a then f (heap st a) else heap st b)"
  by (simp add: update_el_def)




lemma heap_bindCurrencyFormat [simp]: "heap (bindCurrencyFormat input st) = heap st"
  by (simp add: bindCurrencyFormat_def addEventListener_def)




section \<open>Frame properties of the document operations\<close>

lemma update_el_fields [simp]:
  "doc (update_el a f st) = doc st"
  "next_node (update_el a f st) = next_node st"
  "ALL_LOCATIONS (update_el a f st) = ALL_LOCATIONS st"
  "steps (update_el a f st) = steps st"
  "progressSteps (update_el a f st) = progressSteps st"
  "progressLines (update_el a f st) = progressLines st"
  "prevBtn (update_el a f st) = prevBtn st"
  "nextBtn (update_el a f st) = nextBtn st"
  "calcBtn (update_el a f st) = calcBtn st"
  "currentStep (update_el a f st) = currentStep st"
  "numChildrenSelect (update_el a f st) = numChildrenSelect st"
  "childrenContainer (update_el a f st) = childrenContainer st"
  "grandchildrenSection (update_el a f st) = grandchildrenSection st"
  by (simp_all add: update_el_def)

lemma addEventListener_fields [simp]:
  "heap (addEventListener a ev h st) = heap st"
  "doc (addEventListener a ev h st) = doc st"
  "next_node (addEventListener a ev h st) = next_node st"
  "ALL_LOCATIONS (addEventListener a ev h st) = ALL_LOCATIONS st"
  "steps (addEventListener a ev h st) = steps st"
  "progressSteps (addEventListener a ev h st) = progressSteps st"
  "progressLines (addEventListener a ev h st) = progressLines st"
  "prevBtn (addEventListener a ev h st) = prevBtn st"
  "nextBtn (addEventListener a ev h st) = nextBtn st"
  "calcBtn (addEventListener a ev h st) = calcBtn st"
  "currentStep (addEventListener a ev h st) = currentStep st"
  "numChildrenSelect (addEventListener a ev h st) = numChildrenSelect st"
  "childrenContainer (addEventListener a ev h st) = childrenContainer st"
  "grandchildrenSection (addEventListener a ev h st) = grandchildrenSection st"
  by (simp_all add: addEventListener_def)

lemma clear_innerHTML_fields [simp]:
  "heap (clear_innerHTML c st) = heap st"
  "next_node (clear_innerHTML c st) = next_node st"
  "listeners (clear_innerHTML c st) = listeners st"
  "ALL_LOCATIONS (clear_innerHTML c st) = ALL_LOCATIONS st"
  "steps (clear_innerHTML c st) = steps st"
  "progressSteps (clear_innerHTML c st) = progressSteps st"
  "progressLines (clear_innerHTML c st) = progressLines st"
  "prevBtn (clear_innerHTML c st) = prevBtn st"
  "nextBtn (clear_innerHTML c st) = nextBtn st"
  "calcBtn (clear_innerHTML c st) = calcBtn st"
  "currentStep (clear_innerHTML c st) = currentStep st"
  "numChildrenSelect (clear_innerHTML c st) = numChildrenSelect st"
  "childrenContainer (clear_innerHTML c st) = childrenContainer st"
  "grandchildrenSection (clear_innerHTML c st) = grandchildrenSection st"
  by (simp_all add: clear_innerHTML_def)

lemma insertAdjacentHTML_fields [simp]:
  "next_node (insertAdjacentHTML_beforeend c frag st) = next_node st + length frag"
  "listeners (insertAdjacentHTML_beforeend c frag st) = listeners st"
  "ALL_LOCATIONS (insertAdjacentHTML_beforeend c frag st) = ALL_LOCATIONS st"
  "steps (insertAdjacentHTML_beforeend c frag st) = steps st"
  "progressSteps (insertAdjacentHTML_beforeend c frag st) = progressSteps st"
  "progressLines (insertAdjacentHTML_beforeend c frag st) = progressLines st"
  "prevBtn (insertAdjacentHTML_beforeend c frag st) = prevBtn st"
  "nextBtn (insertAdjacentHTML_beforeend c frag st) = nextBtn st"
  "calcBtn (insertAdjacentHTML_beforeend c frag st) = calcBtn st"
  "currentStep (insertAdjacentHTML_beforeend c frag st) = currentStep st"
  "numChildrenSelect (insertAdjacentHTML_beforeend c frag st) = numChildrenSelect st"
  "childrenContainer (insertAdjacentHTML_beforeend c frag st) = childrenContainer st"
  "grandchildrenSection (insertAdjacentHTML_beforeend c frag st) = grandchildrenSection st"
  by (simp_all add: insertAdjacentHTML_beforeend_def Let_def)

lemma bindCurrencyFormat_fields [simp]:
  "doc (bindCurrencyFormat a st) = doc st"
  "next_node (bindCurrencyFormat a st) = next_node st"
  "ALL_LOCATIONS (bindCurrencyFormat a st) = ALL_LOCATIONS st"
  "steps (bindCurrencyFormat a st) = steps st"
  "progressSteps (bindCurrencyFormat a st) = progressSteps st"
  "progressLines (bindCurrencyFormat a st) = progressLines st"
  "prevBtn (bindCurrencyFormat a st) = prevBtn st"
  "nextBtn (bindCurrencyFormat a st) = nextBtn st"
  "calcBtn (bindCurrencyFormat a st) = calcBtn st"
  "currentStep (bindCurrencyFormat a st) = currentStep st"
  "numChildrenSelect (bindCurrencyFormat a st) = numChildrenSelect st"
  "childrenContainer (bindCurrencyFormat a st) = childrenContainer st"
  "grandchildrenSection (bindCurrencyFormat a st) = grandchildrenSection st"
  by (simp_all add: bindCurrencyFormat_def)

lemma heap_insertAdjacentHTML_old:
  "a < next_node st \<Longrightarrow> heap (insertAdjacentHTML_beforeend c frag st) a = heap st a"
  by (simp add: insertAdjacentHTML_beforeend_def Let_def)


text \<open>One pass of the loop keeps the script's variables and the elements that exist.\<close>

lemma render_child_fields [simp]:
  "next_node (render_child i c st) = next_node st + 9"
  "ALL_LOCATIONS (render_child i c st) = ALL_LOCATIONS st"
  "steps (render_child i c st) = steps st"
  "progressSteps (render_child i c st) = progressSteps st"
  "progressLines (render_child i c st) = progressLines st"
  "prevBtn (render_child i c st) = prevBtn st"
  "nextBtn (render_child i c st) = nextBtn st"
  "calcBtn (render_child i c st) = calcBtn st"
  "currentStep (render_child i c st) = currentStep st"
  "numChildrenSelect (render_child i c st) = numChildrenSelect st"
  "childrenContainer (render_child i c st) = childrenContainer st"
  "grandchildrenSection (render_child i c st) = grandchildrenSection st"
  by (simp_all add: render_child_def Let_def childFormHTML_def split: option.splits)

lemma heap_render_child:
  "heap (render_child i c st) =
     heap (insertAdjacentHTML_beforeend c (childFormHTML (ALL_LOCATIONS st) i) st)"
  by (simp add: render_child_def Let_def split: option.splits)


lemma heap_render_child_old:
  "a < next_node st \<Longrightarrow> heap (render_child i c st) a = heap st a"
  by (simp add: heap_render_child heap_insertAdjacentHTML_old)

lemma render_loop_frame:
  "next_node st \<le> next_node (render_loop i n c st) \<and>
   (\<forall>a<next_node st. heap (render_loop i n c st) a = heap st a) \<and>
   ALL_LOCATIONS (render_loop i n c st) = ALL_LOCATIONS st \<and>
   steps (render_loop i n c st) = steps st \<and>
   progressSteps (render_loop i n c st) = progressSteps st \<and>
   progressLines (render_loop i n c st) = progressLines st \<and>
   prevBtn (render_loop i n c st) = prevBtn st \<and>
   nextBtn (render_loop i n c st) = nextBtn st \<and>
   calcBtn (render_loop i n c st) = calcBtn st \<and>
   currentStep (render_loop i n c st) = currentStep st \<and>
   numChildrenSelect (render_loop i n c st) = numChildrenSelect st \<and>
   childrenContainer (render_loop i n c st) = childrenContainer st \<and>
   grandchildrenSection (render_loop i n c st) = grandchildrenSection st"
proof (induction i n c st rule: render_loop.induct)
  case (1 i n c st)
  show ?case
  proof (cases "js_lt i n")
    case True
    from 1 [OF True] show ?thesis
      by (subst (1 2 3 4 5 6 7 8 9 10 11 12 13) render_loop.simps)
         (simp add: True heap_render_child_old)
  next
    case False
    then show ?thesis by (simp add: render_loop.simps)
  qed
qed

lemma style_display_same: "\<exists>d. e = e\<lparr>style_display := d\<rparr>"
  by (rule exI [of _ "style_display e"]) simp

lemma renderChildren_frame:
  "next_node st \<le> next_node (state_of (renderChildren st)) \<and>
   (\<forall>a<next_node st. \<exists>d. heap (state_of (renderChildren st)) a = (heap st a)\<lparr>style_display := d\<rparr>) \<and>
   (\<forall>a<next_node st. grandchildrenSection st \<noteq> Some a \<longrightarrow>
        heap (state_of (renderChildren st)) a = heap st a) \<and>
   ALL_LOCATIONS (state_of (renderChildren st)) = ALL_LOCATIONS st \<and>
   steps (state_of (renderChildren st)) = steps st \<and>
   progressSteps (state_of (renderChildren st)) = progressSteps st \<and>
   progressLines (state_of (renderChildren st)) = progressLines st \<and>
   prevBtn (state_of (renderChildren st)) = prevBtn st \<and>
   nextBtn (state_of (renderChildren st)) = nextBtn st \<and>
   calcBtn (state_of (renderChildren st)) = calcBtn st \<and>
   currentStep (state_of (renderChildren st)) = currentStep st \<and>
   numChildrenSelect (state_of (renderChildren st)) = numChildrenSelect st \<and>
   childrenContainer (state_of (renderChildren st)) = childrenContainer st \<and>
   grandchildrenSection (state_of (renderChildren st)) = grandchildrenSection st"
proof (cases "numChildrenSelect st")
  case None
  then show ?thesis
    by (simp add: renderChildren_def style_display_same)
next
  case sel: (Some sel)
  show ?thesis
  proof (cases "childrenContainer st")
    case None
    with sel show ?thesis
      by (simp add: renderChildren_def style_display_same)
  next
    case c: (Some c)
    let ?n = "parseInt (el_value (heap st sel))"
    let ?s = "render_loop 0 ?n c (clear_innerHTML c st)"
    note fr = render_loop_frame [of "clear_innerHTML c st" 0 ?n c, simplified]
    have old: "heap ?s a = heap st a" if "a < next_node st" for a
      using fr that by simp
    show ?thesis
    proof (cases "grandchildrenSection st")
      case None
      then have "renderChildren st = Throw TypeError ?s"
        using sel c fr by (simp add: renderChildren_def Let_def)
      then show ?thesis using fr None
        by (simp add: style_display_same)
    next
      case (Some g)
      then have r: "renderChildren st =
          Done (update_el g (\<lambda>e. e\<lparr>style_display := (if js_positive ?n then ''block'' else ''none'')\<rparr>) ?s)"
        using sel c fr by (simp add: renderChildren_def Let_def)
      have "\<exists>d. heap (state_of (renderChildren st)) a = (heap st a)\<lparr>style_display := d\<rparr>"
        if "a < next_node st" for a
      proof (cases "a = g")
        case True
        then show ?thesis using r old [OF that] by (auto simp: update_el_def)
      next
        case False
        then have "heap (state_of (renderChildren st)) a = heap st a"
          using r old [OF that] by (simp add: update_el_def)
        then show ?thesis by (simp add: style_display_same)
      qed
      moreover have "heap (state_of (renderChildren st)) a = heap st a"
        if "a < next_node st" "grandchildrenSection st \<noteq> Some a" for a
        using r old that Some by (simp add: update_el_def)
      ultimately show ?thesis using r fr by simp
    qed
  qed
qed

lemma renderChildren_Done:
  assumes "numChildrenSelect st = Some sel" "childrenContainer st = Some c"
    "grandchildrenSection st = Some g"
  shows "renderChildren st =
     Done (update_el g
        (\<lambda>e. e\<lparr>style_display :=
           (if js_positive (parseInt (el_value (heap st sel))) then ''block'' else ''none'')\<rparr>)
        (render_loop 0 (parseInt (el_value (heap st sel))) c (clear_innerHTML c st)))"
  using assms render_loop_frame [of "clear_innerHTML c st" 0 "parseInt (el_value (heap st sel))" c]
  by (simp add: renderChildren_def Let_def)

text \<open>What \<open>forEach\<close> does to the elements of a list of distinct nodes.\<close>

lemma forEach_el_notin: "a \<notin> set as \<Longrightarrow> forEach_el f i as h a = h a"
  by (induction as arbitrary: i h) auto

lemma forEach_el_nth:
  "distinct as \<Longrightarrow> k < length as \<Longrightarrow> forEach_el f i as h (as ! k) = f (i + k) (h (as ! k))"
proof (induction as arbitrary: i h k)
  case Nil
  then show ?case by simp
next
  case (Cons a as)
  show ?case
  proof (cases k)
    case 0
    with Cons.prems show ?thesis by (simp add: forEach_el_notin)
  next
    case (Suc m)
    with Cons.prems have "as ! m \<noteq> a" by auto
    with Suc Cons show ?thesis by simp
  qed
qed

lemma forEach_el_in:
  "distinct as \<Longrightarrow> a \<in> set as \<Longrightarrow> forEach_el (\<lambda>i. g) i as h a = g (h a)"
  by (metis forEach_el_nth in_set_conv_nth)

lemma forEach_el_preserves:
  "(\<And>i e. g (f i e) = g e) \<Longrightarrow> g (forEach_el f i as h a) = g (h a)"
  by (induction as arbitrary: i h) auto

section \<open>Properties of step navigation\<close>

lemma classList_remove_other:
  "c \<noteq> d \<Longrightarrow> (d \<in> set (classList (classList_remove c e))) = (d \<in> set (classList e))"
  by (simp add: classList_remove_def)

lemma classList_remove_same: "c \<notin> set (classList (classList_remove c e))"
  by (simp add: classList_remove_def)

lemma classList_add_mem:
  "(d \<in> set (classList (classList_add c e))) = (d = c \<or> d \<in> set (classList e))"
  by (auto simp: classList_add_def)

lemma classList_ops_fields [simp]:
  "data_step (classList_remove c e) = data_step e"
  "data_step (classList_add c e) = data_step e"
  "data_step (classList_toggle c b e) = data_step e"
  "el_id (classList_remove c e) = el_id e"
  "el_id (classList_add c e) = el_id e"
  "el_id (classList_toggle c b e) = el_id e"
  "style_display (classList_remove c e) = style_display e"
  "style_display (classList_add c e) = style_display e"
  "style_display (classList_toggle c b e) = style_display e"
  "style_visibility (classList_remove c e) = style_visibility e"
  "style_visibility (classList_add c e) = style_visibility e"
  "style_visibility (classList_toggle c b e) = style_visibility e"
  "checked (classList_remove c e) = checked e"
  "checked (classList_add c e) = checked e"
  "checked (classList_toggle c b e) = checked e"
  "ancestors (classList_remove c e) = ancestors e"
  "ancestors (classList_add c e) = ancestors e"
  "ancestors (classList_toggle c b e) = ancestors e"
  by (simp_all add: classList_remove_def classList_add_def classList_toggle_def)

lemma querySelector_step_cong:
  assumes "doc s = doc t"
    and "\<And>a. data_step (heap s a) = data_step (heap t a)"
    and "\<And>a. (''step-content'' \<in> set (classList (heap s a))) = (''step-content'' \<in> set (classList (heap t a)))"
  shows "querySelector_step n s = querySelector_step n t"
  using assms by (simp add: querySelector_step_def has_class_def)

lemma showStep_reaches:
  assumes p: "querySelector_step n st = Some p"
    and b: "prevBtn st = Some pb" "nextBtn st = Some nb" "calcBtn st = Some cb"
  shows "showStep n st =
           (if n = 4 then renderChildren (shown n p pb nb cb st) else Done (shown n p pb nb cb st))"
proof -
  let ?st1 = "st\<lparr>heap := forEach_el (\<lambda>i. classList_remove ''active'') 0 (steps st) (heap st)\<rparr>"
  have "querySelector_step n ?st1 = querySelector_step n st"
  proof (rule querySelector_step_cong)
    show "doc ?st1 = doc st" by simp
    show "data_step (heap ?st1 a) = data_step (heap st a)" for a
      by (simp add: forEach_el_preserves [where g = data_step])
    show "(''step-content'' \<in> set (classList (heap ?st1 a))) =
          (''step-content'' \<in> set (classList (heap st a)))" for a
      by (simp add: forEach_el_preserves [where g = "\<lambda>e. ''step-content'' \<in> set (classList e)"]
          classList_remove_other)
  qed
  with p have q: "querySelector_step n ?st1 = Some p" by simp
  show ?thesis
    unfolding showStep_def Let_def q
    using b
    by (simp add: shown_def shown_heap_def Let_def totalSteps_def update_el_def)
qed

lemma showStep_no_panel:
  "querySelector_step n st = None \<Longrightarrow>
     showStep n st =
       Throw TypeError
         (st\<lparr>heap := forEach_el (\<lambda>i. classList_remove ''active'') 0 (steps st) (heap st)\<rparr>)"
proof -
  let ?st1 = "st\<lparr>heap := forEach_el (\<lambda>i. classList_remove ''active'') 0 (steps st) (heap st)\<rparr>"
  assume p: "querySelector_step n st = None"
  have "querySelector_step n ?st1 = querySelector_step n st"
  proof (rule querySelector_step_cong)
    show "doc ?st1 = doc st" by simp
    show "data_step (heap ?st1 a) = data_step (heap st a)" for a
      by (simp add: forEach_el_preserves [where g = data_step])
    show "(''step-content'' \<in> set (classList (heap ?st1 a))) =
          (''step-content'' \<in> set (classList (heap st a)))" for a
      by (simp add: forEach_el_preserves [where g = "\<lambda>e. ''step-content'' \<in> set (classList e)"]
          classList_remove_other)
  qed
  with p have q: "querySelector_step n ?st1 = None" by simp
  show ?thesis
    unfolding showStep_def Let_def q by simp
qed

lemma shown_fields [simp]:
  "doc (shown n p pb nb cb st) = doc st"
  "next_node (shown n p pb nb cb st) = next_node st"
  "listeners (shown n p pb nb cb st) = listeners st"
  "ALL_LOCATIONS (shown n p pb nb cb st) = ALL_LOCATIONS st"
  "steps (shown n p pb nb cb st) = steps st"
  "progressSteps (shown n p pb nb cb st) = progressSteps st"
  "progressLines (shown n p pb nb cb st) = progressLines st"
  "prevBtn (shown n p pb nb cb st) = prevBtn st"
  "nextBtn (shown n p pb nb cb st) = nextBtn st"
  "calcBtn (shown n p pb nb cb st) = calcBtn st"
  "currentStep (shown n p pb nb cb st) = n"
  "numChildrenSelect (shown n p pb nb cb st) = numChildrenSelect st"
  "childrenContainer (shown n p pb nb cb st) = childrenContainer st"
  "grandchildrenSection (shown n p pb nb cb st) = grandchildrenSection st"
  by (simp_all add: shown_def update_el_def)

lemma shown_classList:
  "classList (heap (shown n p pb nb cb st) a) = classList (shown_heap n p st a)"
  by (simp add: shown_def update_el_def)

lemma shown_prev:
  "style_visibility (heap (shown n p pb nb cb st) pb) = (if n = 1 then ''hidden'' else ''visible'')"
  by (simp add: shown_def update_el_def)

lemma shown_next:
  "nb \<noteq> cb \<Longrightarrow>
     style_display (heap (shown n p pb nb cb st) nb) =
       (if n = totalSteps st then ''none'' else ''inline-flex'')"
  by (simp add: shown_def update_el_def)

lemma shown_calc:
  "style_display (heap (shown n p pb nb cb st) cb) =
     (if n = totalSteps st then ''inline-flex'' else ''none'')"
  by (simp add: shown_def update_el_def)

lemma shown_heap_step:
  assumes "distinct (steps st @ progressSteps st @ progressLines st)" and "a \<in> set (steps st)"
  shows "shown_heap n p st a =
           (if a = p then classList_add ''active'' (classList_remove ''active'' (heap st a))
            else classList_remove ''active'' (heap st a))"
proof -
  from assms have "a \<notin> set (progressSteps st)" "a \<notin> set (progressLines st)" "distinct (steps st)"
    by auto
  moreover have "forEach_el (\<lambda>i. classList_remove ''active'') 0 (steps st) (heap st) a =
      classList_remove ''active'' (heap st a)"
    using \<open>distinct (steps st)\<close> assms(2) by (rule forEach_el_in)
  ultimately show ?thesis
    by (cases "a = p") (simp_all add: shown_heap_def Let_def forEach_el_notin)
qed

lemma progress_mark_active:
  "(''active'' \<in> set (classList (progress_mark n k e))) = (k + 1 = n)"
  by (simp add: progress_mark_def Let_def classList_add_mem classList_remove_def)

lemma progress_mark_completed:
  "(''completed'' \<in> set (classList (progress_mark n k e))) = (k + 1 < n)"
  by (simp add: progress_mark_def Let_def classList_add_mem classList_remove_def)

lemma progress_mark_other:
  "d \<noteq> ''active'' \<Longrightarrow> d \<noteq> ''completed'' \<Longrightarrow>
     (d \<in> set (classList (progress_mark n k e))) = (d \<in> set (classList e))"
  by (simp add: progress_mark_def Let_def classList_add_mem classList_remove_def)

lemma shown_heap_progress_class:
  assumes "distinct (steps st @ progressSteps st @ progressLines st)"
    and "k < length (progressSteps st)"
  shows "(d \<in> set (classList (shown_heap n p st (progressSteps st ! k)))) =
           (if d = ''active'' then k + 1 = n
            else if d = ''completed'' then k + 1 < n
            else d \<in> set (classList (heap st (progressSteps st ! k))))"
proof -
  let ?a = "progressSteps st ! k"
  let ?h1 = "forEach_el (\<lambda>i. classList_remove ''active'') 0 (steps st) (heap st)"
  let ?h2 = "?h1(p := classList_add ''active'' (?h1 p))"
  from assms have a: "?a \<in> set (progressSteps st)" by simp
  with assms(1) have n1: "?a \<notin> set (steps st)" and n2: "?a \<notin> set (progressLines st)"
    and d: "distinct (progressSteps st)" by auto
  have "shown_heap n p st ?a = progress_mark n k (?h2 ?a)"
    using n2 d assms(2) by (simp add: shown_heap_def Let_def forEach_el_notin forEach_el_nth)
  moreover have h1: "?h1 ?a = heap st ?a"
    using n1 by (rule forEach_el_notin)
  have "?h2 ?a = (if ?a = p then classList_add ''active'' (heap st ?a) else heap st ?a)"
    using h1 by auto
  then have "d \<noteq> ''active'' \<Longrightarrow> (d \<in> set (classList (?h2 ?a))) = (d \<in> set (classList (heap st ?a)))"
    by (simp add: classList_add_mem)
  ultimately show ?thesis
    by (simp add: progress_mark_active progress_mark_completed progress_mark_other)
qed

lemma bound_toD:
  "bound_to st v i \<Longrightarrow> \<exists>a. v = Some a \<and> a < next_node st \<and> el_id (heap st a) = Some i"
  by (cases v) (simp_all add: bound_to_def)

lemma panels_taggedD:
  "panels_tagged st \<Longrightarrow> 1 \<le> n \<Longrightarrow> n \<le> totalSteps st \<Longrightarrow>
     \<exists>p. querySelector_step n st = Some p \<and> p \<in> set (steps st)"
proof -
  assume t: "panels_tagged st" and n: "1 \<le> n" "n \<le> totalSteps st"
  from n have "n \<in> set [1 ..< Suc (totalSteps st)]" by auto
  with t have "case querySelector_step n st of None \<Rightarrow> False | Some p \<Rightarrow> p \<in> set (steps st)"
    unfolding panels_tagged_def by (rule bspec)
  then show ?thesis by (cases "querySelector_step n st") simp_all
qed

lemma querySelector_step_Some:
  "querySelector_step n st = Some p \<Longrightarrow>
     p \<in> set (doc st) \<and> has_class st p ''step-content'' \<and> data_step (heap st p) = Some (toString n)"
  by (auto simp: querySelector_step_def find_Some_iff)

text \<open>
  On a page as the script expects it, \<open>showStep(n)\<close> returns, and every element that
  existed is as at \<open>currentStep = n\<close>, except that step 4 sets the display of the
  grandchildren section.
\<close>

lemma showStep_page_ok:
  assumes ok: "page_ok st" and n: "1 \<le> n" "n \<le> totalSteps st"
  shows "\<exists>p pb nb cb g st'.
           querySelector_step n st = Some p \<and> p \<in> set (steps st) \<and>
           prevBtn st = Some pb \<and> nextBtn st = Some nb \<and> calcBtn st = Some cb \<and>
           grandchildrenSection st = Some g \<and> nb \<noteq> cb \<and> nb \<noteq> g \<and> cb \<noteq> g \<and>
           pb < next_node st \<and> nb < next_node st \<and> cb < next_node st \<and>
           showStep n st = Done st' \<and>
           (\<forall>a<next_node st. \<exists>d. heap st' a = (heap (shown n p pb nb cb st) a)\<lparr>style_display := d\<rparr>) \<and>
           (\<forall>a<next_node st. a \<noteq> g \<longrightarrow> heap st' a = heap (shown n p pb nb cb st) a) \<and>
           steps st' = steps st \<and> progressSteps st' = progressSteps st \<and>
           progressLines st' = progressLines st \<and> currentStep st' = n \<and>
           prevBtn st' = prevBtn st \<and> nextBtn st' = nextBtn st \<and> calcBtn st' = calcBtn st"
proof -
  from ok obtain pb where pb: "prevBtn st = Some pb" "pb < next_node st"
    unfolding page_ok_def by (blast dest: bound_toD)
  from ok obtain nb where nb: "nextBtn st = Some nb" "nb < next_node st"
    "el_id (heap st nb) = Some ''next-btn''"
    unfolding page_ok_def by (blast dest: bound_toD)
  from ok obtain cb where cb: "calcBtn st = Some cb" "cb < next_node st"
    "el_id (heap st cb) = Some ''calculate-btn''"
    unfolding page_ok_def by (blast dest: bound_toD)
  from ok obtain sel where sel: "numChildrenSelect st = Some sel"
    unfolding page_ok_def by (blast dest: bound_toD)
  from ok obtain c where c: "childrenContainer st = Some c"
    unfolding page_ok_def by (blast dest: bound_toD)
  from ok obtain g where g: "grandchildrenSection st = Some g"
    "el_id (heap st g) = Some ''grandchildren-section''"
    unfolding page_ok_def by (blast dest: bound_toD)
  from ok n obtain p where p: "querySelector_step n st = Some p" "p \<in> set (steps st)"
    unfolding page_ok_def by (blast dest: panels_taggedD)
  have ne: "nb \<noteq> cb" "nb \<noteq> g" "cb \<noteq> g" using nb cb g by auto
  let ?s = "shown n p pb nb cb st"
  have reach: "showStep n st = (if n = 4 then renderChildren ?s else Done ?s)"
    using p(1) pb(1) nb(1) cb(1) by (rule showStep_reaches)
  show ?thesis
  proof (cases "n = 4")
    case False
    with reach have "showStep n st = Done ?s" by simp
    then show ?thesis using p pb nb cb g ne by (simp add: style_display_same)
  next
    case True
    have "renderChildren ?s = Done (state_of (renderChildren ?s))"
      using renderChildren_Done [of ?s sel c g] sel c g by simp
    with reach True have d: "showStep n st = Done (state_of (renderChildren ?s))" by simp
    note fr = renderChildren_frame [of ?s, simplified]
    show ?thesis using p pb nb cb g ne d fr by simp
  qed
qed

section \<open>The example page\<close>

text \<open>Loading the script on the example markup gives the example page.\<close>

lemma example_page_loaded:
  "(case load (store_of example_markup) [0 ..< 25] 25 [''Austin'', ''Boston''] of
      Inl e \<Rightarrow> False
    | Inr st \<Rightarrow>
        map (heap st) [0 ..< 25] = map (heap example_page) [0 ..< 25] \<and>
        doc st = doc example_page \<and> next_node st = next_node example_page \<and>
        listeners st = listeners example_page \<and>
        ALL_LOCATIONS st = ALL_LOCATIONS example_page \<and>
        steps st = steps example_page \<and> progressSteps st = progressSteps example_page \<and>
        progressLines st = progressLines example_page \<and>
        prevBtn st = prevBtn example_page \<and> nextBtn st = nextBtn example_page \<and>
        calcBtn st = calcBtn example_page \<and> currentStep st = currentStep example_page \<and>
        numChildrenSelect st = numChildrenSelect example_page \<and>
        childrenContainer st = childrenContainer example_page \<and>
        grandchildrenSection st = grandchildrenSection example_page)"
  by code_simp

lemma example_page_ok: "page_ok example_page"
  by code_simp


lemma example_totalSteps: "totalSteps example_page = 5"
  by code_simp

lemma shown_data_step:
  "data_step (heap (shown n p pb nb cb st) a) = data_step (shown_heap n p st a)"
  by (simp add: shown_def update_el_def)

lemma filter_eq_single: "distinct xs \<Longrightarrow> p \<in> set xs \<Longrightarrow> filter (\<lambda>a. a = p) xs = [p]"
  by (induction xs) (auto simp: filter_empty_conv)

text \<open>
  Claim C1. For every \<open>n\<close> in \<open>[1, totalSteps]\<close>, on a page as the script expects it,
  \<open>showStep(n)\<close> returns and afterwards exactly one step panel carries the class
  \<open>active\<close>: the list of the active step panels has the single member \<open>p\<close>, and \<open>p\<close> is
  the step panel whose \<open>data-step\<close> attribute is \<open>n\<close>.
\<close>

theorem showStep_one_active_panel:
  assumes ok: "page_ok st" and n: "1 \<le> n" "n \<le> totalSteps st"
  shows "\<exists>st' p. showStep n st = Done st' \<and> steps st' = steps st \<and>
           filter (\<lambda>a. has_class st' a ''active'') (steps st') = [p] \<and>
           has_class st' p ''step-content'' \<and>
           data_step (heap st' p) = Some (toString n)"
proof -
  from showStep_page_ok [OF ok n] obtain p pb nb cb g st' where
    p: "querySelector_step n st = Some p" "p \<in> set (steps st)"
    and d: "showStep n st = Done st'"
    and h: "\<forall>a<next_node st. \<exists>d. heap st' a = (heap (shown n p pb nb cb st) a)\<lparr>style_display := d\<rparr>"
    and s: "steps st' = steps st"
    by blast
  from ok have dist: "distinct (steps st @ progressSteps st @ progressLines st)"
    and fresh: "\<forall>a\<in>set (steps st). a < next_node st"
    by (auto simp: page_ok_def)
  have cl: "classList (heap st' a) = classList (shown_heap n p st a)"
    and ds: "data_step (heap st' a) = data_step (shown_heap n p st a)"
    if "a \<in> set (steps st)" for a
  proof -
    from that fresh h obtain d where "heap st' a = (heap (shown n p pb nb cb st) a)\<lparr>style_display := d\<rparr>"
      by blast
    then show "classList (heap st' a) = classList (shown_heap n p st a)"
      and "data_step (heap st' a) = data_step (shown_heap n p st a)"
      by (simp_all add: shown_classList shown_data_step)
  qed
  have act: "has_class st' a ''active'' = (a = p)" if "a \<in> set (steps st)" for a
    using cl [OF that] shown_heap_step [OF dist that, of n p]
    by (simp add: has_class_def classList_add_mem classList_remove_same)
  have "filter (\<lambda>a. has_class st' a ''active'') (steps st) = filter (\<lambda>a. a = p) (steps st)"
    by (rule filter_cong) (simp_all add: act)
  also have "\<dots> = [p]" using dist p(2) by (simp add: filter_eq_single)
  finally have one: "filter (\<lambda>a. has_class st' a ''active'') (steps st') = [p]" using s by simp
  from querySelector_step_Some [OF p(1)]
  have q: "has_class st p ''step-content''" "data_step (heap st p) = Some (toString n)" by simp_all
  have "has_class st' p ''step-content''"
    using cl [OF p(2)] shown_heap_step [OF dist p(2), of n p] q(1)
    by (simp add: has_class_def classList_add_mem classList_remove_other)
  moreover have "data_step (heap st' p) = Some (toString n)"
    using ds [OF p(2)] shown_heap_step [OF dist p(2), of n p] q(2) by simp
  ultimately show ?thesis using d s one by blast
qed

theorem showStep_one_active_panel_witness:
  "page_ok example_page \<and> (1::nat) \<le> 4 \<and> 4 \<le> totalSteps example_page \<and>
   (\<exists>st' p. showStep 4 example_page = Done st' \<and> steps st' = steps example_page \<and>
      filter (\<lambda>a. has_class st' a ''active'') (steps st') = [p] \<and>
      has_class st' p ''step-content'' \<and>
      data_step (heap st' p) = Some (toString 4))"
  using showStep_one_active_panel [of example_page 4] example_page_ok
  by (simp add: example_totalSteps)

text \<open>
  Claim C2. For every \<open>n\<close> in \<open>[1, totalSteps]\<close>, after \<open>showStep(n)\<close> the progress indicator
  with the 1-based index \<open>i = k + 1\<close> carries \<open>completed\<close> exactly when \<open>i < n\<close> and \<open>active\<close>
  exactly when \<open>i = n\<close>, so neither of the two otherwise and never both; its other
  classes are as before.
\<close>

theorem showStep_progress_indicators:
  assumes ok: "page_ok st" and n: "1 \<le> n" "n \<le> totalSteps st"
  shows "\<exists>st'. showStep n st = Done st' \<and> progressSteps st' = progressSteps st \<and>
           (\<forall>k<length (progressSteps st).
              has_class st' (progressSteps st ! k) ''completed'' = (k + 1 < n) \<and>
              has_class st' (progressSteps st ! k) ''active'' = (k + 1 = n) \<and>
              \<not> (has_class st' (progressSteps st ! k) ''active'' \<and>
                 has_class st' (progressSteps st ! k) ''completed'') \<and>
              (\<forall>c. c \<noteq> ''active'' \<and> c \<noteq> ''completed'' \<longrightarrow>
                 has_class st' (progressSteps st ! k) c = has_class st (progressSteps st ! k) c))"
proof -
  from showStep_page_ok [OF ok n] obtain p pb nb cb g st' where
    d: "showStep n st = Done st'"
    and h: "\<forall>a<next_node st. \<exists>d. heap st' a = (heap (shown n p pb nb cb st) a)\<lparr>style_display := d\<rparr>"
    and s: "progressSteps st' = progressSteps st"
    by blast
  from ok have dist: "distinct (steps st @ progressSteps st @ progressLines st)"
    and fresh: "\<forall>a\<in>set (progressSteps st). a < next_node st"
    by (auto simp: page_ok_def)
  have cl: "has_class st' (progressSteps st ! k) c =
              (if c = ''active'' then k + 1 = n
               else if c = ''completed'' then k + 1 < n
               else has_class st (progressSteps st ! k) c)"
    if k: "k < length (progressSteps st)" for k c
  proof -
    from k fresh have "progressSteps st ! k < next_node st" by simp
    with h obtain d where
      "heap st' (progressSteps st ! k) = (heap (shown n p pb nb cb st) (progressSteps st ! k))\<lparr>style_display := d\<rparr>"
      by blast
    then have "classList (heap st' (progressSteps st ! k)) = classList (shown_heap n p st (progressSteps st ! k))"
      by (simp add: shown_classList)
    then show ?thesis
      using shown_heap_progress_class [OF dist k, of c n p] by (simp add: has_class_def)
  qed
  have "has_class st' (progressSteps st ! k) ''completed'' = (k + 1 < n) \<and>
        has_class st' (progressSteps st ! k) ''active'' = (k + 1 = n) \<and>
        \<not> (has_class st' (progressSteps st ! k) ''active'' \<and>
           has_class st' (progressSteps st ! k) ''completed'') \<and>
        (\<forall>c. c \<noteq> ''active'' \<and> c \<noteq> ''completed'' \<longrightarrow>
           has_class st' (progressSteps st ! k) c = has_class st (progressSteps st ! k) c)"
    if k: "k < length (progressSteps st)" for k
    by (simp add: cl [OF k])
  with d s show ?thesis by blast
qed

theorem showStep_progress_indicators_witness:
  "page_ok example_page \<and> (1::nat) \<le> 3 \<and> 3 \<le> totalSteps example_page \<and>
   (\<exists>st'. showStep 3 example_page = Done st' \<and>
      progressSteps st' = progressSteps example_page \<and>
      (\<forall>k<length (progressSteps example_page).
         has_class st' (progressSteps example_page ! k) ''completed'' = (k + 1 < 3) \<and>
         has_class st' (progressSteps example_page ! k) ''active'' = (k + 1 = 3) \<and>
         \<not> (has_class st' (progressSteps example_page ! k) ''active'' \<and>
            has_class st' (progressSteps example_page ! k) ''completed'') \<and>
         (\<forall>c. c \<noteq> ''active'' \<and> c \<noteq> ''completed'' \<longrightarrow>
            has_class st' (progressSteps example_page ! k) c =
            has_class example_page (progressSteps example_page ! k) c)))"
  using showStep_progress_indicators [of example_page 3] example_page_ok
  by (simp add: example_totalSteps)

text \<open>
  Claim C8. For every \<open>n\<close> in \<open>[1, totalSteps]\<close>, \<open>showStep(n)\<close> hides the previous button
  exactly when \<open>n = 1\<close> and shows it otherwise; it shows the calculate button and hides
  the next button exactly when \<open>n = totalSteps\<close>, and does the inverse for a smaller \<open>n\<close>.
\<close>

theorem showStep_buttons:
  assumes ok: "page_ok st" and n: "1 \<le> n" "n \<le> totalSteps st"
  shows "\<exists>st' pb nb cb. showStep n st = Done st' \<and>
           prevBtn st' = Some pb \<and> nextBtn st' = Some nb \<and> calcBtn st' = Some cb \<and>
           style_visibility (heap st' pb) = (if n = 1 then ''hidden'' else ''visible'') \<and>
           style_display (heap st' nb) = (if n = totalSteps st then ''none'' else ''inline-flex'') \<and>
           style_display (heap st' cb) = (if n = totalSteps st then ''inline-flex'' else ''none'')"
proof -
  from showStep_page_ok [OF ok n] obtain p pb nb cb g st' where
    b: "prevBtn st = Some pb" "nextBtn st = Some nb" "calcBtn st = Some cb"
    and ne: "nb \<noteq> cb" "nb \<noteq> g" "cb \<noteq> g"
    and lt: "pb < next_node st" "nb < next_node st" "cb < next_node st"
    and d: "showStep n st = Done st'"
    and h1: "\<forall>a<next_node st. \<exists>d. heap st' a = (heap (shown n p pb nb cb st) a)\<lparr>style_display := d\<rparr>"
    and h2: "\<forall>a<next_node st. a \<noteq> g \<longrightarrow> heap st' a = heap (shown n p pb nb cb st) a"
    and v: "prevBtn st' = prevBtn st" "nextBtn st' = nextBtn st" "calcBtn st' = calcBtn st"
    by blast
  from h1 lt(1) obtain d0 where "heap st' pb = (heap (shown n p pb nb cb st) pb)\<lparr>style_display := d0\<rparr>"
    by blast
  then have "style_visibility (heap st' pb) = (if n = 1 then ''hidden'' else ''visible'')"
    by (simp add: shown_prev)
  moreover have "style_display (heap st' nb) = (if n = totalSteps st then ''none'' else ''inline-flex'')"
    using h2 lt(2) ne by (simp add: shown_next)
  moreover have "style_display (heap st' cb) = (if n = totalSteps st then ''inline-flex'' else ''none'')"
    using h2 lt(3) ne by (simp add: shown_calc)
  ultimately show ?thesis using d b v by simp
qed

theorem showStep_buttons_witness:
  "page_ok example_page \<and> (1::nat) \<le> 5 \<and> 5 \<le> totalSteps example_page \<and>
   (\<exists>st' pb nb cb. showStep 5 example_page = Done st' \<and>
      prevBtn st' = Some pb \<and> nextBtn st' = Some nb \<and> calcBtn st' = Some cb \<and>
      style_visibility (heap st' pb) = ''visible'' \<and>
      style_display (heap st' nb) = ''none'' \<and>
      style_display (heap st' cb) = ''inline-flex'')"
  using showStep_buttons [of example_page 5] example_page_ok
  by (simp add: example_totalSteps)

text \<open>Whatever the page, \<open>showStep(n)\<close> keeps the list of steps, and the current step is \<open>n\<close> or as before.\<close>

lemma showStep_vars:
  "steps (state_of (showStep n st)) = steps st \<and>
   (currentStep (state_of (showStep n st)) = n \<or>
    currentStep (state_of (showStep n st)) = currentStep st)"
proof (cases "querySelector_step n st")
  case None
  then show ?thesis by (simp add: showStep_no_panel)
next
  case (Some p)
  let ?st1 = "st\<lparr>heap := forEach_el (\<lambda>i. classList_remove ''active'') 0 (steps st) (heap st)\<rparr>"
  have "querySelector_step n ?st1 = querySelector_step n st"
  proof (rule querySelector_step_cong)
    show "doc ?st1 = doc st" by simp
    show "data_step (heap ?st1 a) = data_step (heap st a)" for a
      by (simp add: forEach_el_preserves [where g = data_step])
    show "(''step-content'' \<in> set (classList (heap ?st1 a))) =
          (''step-content'' \<in> set (classList (heap st a)))" for a
      by (simp add: forEach_el_preserves [where g = "\<lambda>e. ''step-content'' \<in> set (classList e)"]
          classList_remove_other)
  qed
  with Some have q: "querySelector_step n ?st1 = Some p" by simp
  show ?thesis
  proof (cases "prevBtn st")
    case None
    then show ?thesis unfolding showStep_def Let_def q by simp
  next
    case pb: (Some pb)
    show ?thesis
    proof (cases "nextBtn st")
      case None
      with pb show ?thesis unfolding showStep_def Let_def q by simp
    next
      case nb: (Some nb)
      show ?thesis
      proof (cases "calcBtn st")
        case None
        with pb nb show ?thesis unfolding showStep_def Let_def q by simp
      next
        case cb: (Some cb)
        let ?s = "shown n p pb nb cb st"
        have "steps (state_of (renderChildren ?s)) = steps st"
          "currentStep (state_of (renderChildren ?s)) = n"
          using renderChildren_frame [of ?s] by simp_all
        then show ?thesis
          by (auto simp: showStep_reaches [OF Some pb nb cb])
      qed
    qed
  qed
qed

lemma user_click_range:
  "steps (user_click c st) = steps st \<and>
   (1 \<le> currentStep st \<and> currentStep st \<le> totalSteps st \<longrightarrow>
      1 \<le> currentStep (user_click c st) \<and> currentStep (user_click c st) \<le> totalSteps st)"
proof (cases c)
  case Next
  show ?thesis
    using showStep_vars [of "currentStep st + 1" st] Next by auto
next
  case Prev
  show ?thesis
    using showStep_vars [of "currentStep st - 1" st] Prev by auto
qed

lemma totalSteps_user_click: "totalSteps (user_click c st) = totalSteps st"
  using user_click_range [of c st] by (simp add: totalSteps_def)

lemma user_clicks_range:
  "1 \<le> currentStep st \<Longrightarrow> currentStep st \<le> totalSteps st \<Longrightarrow>
     1 \<le> currentStep (user_clicks cs st) \<and>
     currentStep (user_clicks cs st) \<le> totalSteps (user_clicks cs st) \<and>
     totalSteps (user_clicks cs st) = totalSteps st"
proof (induction cs arbitrary: st)
  case Nil
  then show ?case by simp
next
  case (Cons c cs)
  from Cons.prems user_click_range [of c st]
  have "1 \<le> currentStep (user_click c st)"
    "currentStep (user_click c st) \<le> totalSteps (user_click c st)"
    by (simp_all add: totalSteps_user_click)
  from Cons.IH [OF this] show ?case by (simp add: totalSteps_user_click)
qed

text \<open>
  Claim C7. On a page as the script expects it, a click on the next button moves the
  current step up by exactly 1 and does nothing at the last step; a click on the previous
  button moves it down by exactly 1 and does nothing at step 1. After any sequence of
  such clicks the current step is in \<open>[1, totalSteps]\<close>.
\<close>

theorem next_prev_navigation:
  assumes ok: "page_ok st" and r: "1 \<le> currentStep st" "currentStep st \<le> totalSteps st"
  shows "(currentStep st < totalSteps st \<longrightarrow>
            currentStep (user_click Next st) = currentStep st + 1) \<and>
         (currentStep st = totalSteps st \<longrightarrow> user_click Next st = st) \<and>
         (1 < currentStep st \<longrightarrow> currentStep (user_click Prev st) = currentStep st - 1) \<and>
         (currentStep st = 1 \<longrightarrow> user_click Prev st = st) \<and>
         (\<forall>cs. 1 \<le> currentStep (user_clicks cs st) \<and>
               currentStep (user_clicks cs st) \<le> totalSteps (user_clicks cs st) \<and>
               totalSteps (user_clicks cs st) = totalSteps st)"
proof -
  have "currentStep (user_click Next st) = currentStep st + 1" if "currentStep st < totalSteps st"
  proof -
    from that have "1 \<le> currentStep st + 1" "currentStep st + 1 \<le> totalSteps st" by simp_all
    from showStep_page_ok [OF ok this] obtain st' where
      "showStep (currentStep st + 1) st = Done st'" "currentStep st' = currentStep st + 1"
      by blast
    with that show ?thesis by simp
  qed
  moreover have "currentStep (user_click Prev st) = currentStep st - 1" if "1 < currentStep st"
  proof -
    from that r have "1 \<le> currentStep st - 1" "currentStep st - 1 \<le> totalSteps st" by simp_all
    from showStep_page_ok [OF ok this] obtain st' where
      "showStep (currentStep st - 1) st = Done st'" "currentStep st' = currentStep st - 1"
      by blast
    with that show ?thesis by simp
  qed
  moreover have "user_click Next st = st" if "currentStep st = totalSteps st"
    using that by simp
  moreover have "user_click Prev st = st" if "currentStep st = 1"
    using that by simp
  moreover have "\<forall>cs. 1 \<le> currentStep (user_clicks cs st) \<and>
               currentStep (user_clicks cs st) \<le> totalSteps (user_clicks cs st) \<and>
               totalSteps (user_clicks cs st) = totalSteps st"
    using user_clicks_range [OF r] by blast
  ultimately show ?thesis by blast
qed

lemma example_page_last_ok: "page_ok (example_page\<lparr>currentStep := 5\<rparr>)"
  by code_simp

theorem next_prev_navigation_witness:
  "page_ok example_page \<and> currentStep example_page = 1 \<and>
   1 \<le> currentStep example_page \<and> currentStep example_page \<le> totalSteps example_page \<and>
   currentStep example_page < totalSteps example_page \<and>
   currentStep (user_click Next example_page) = currentStep example_page + 1 \<and>
   user_click Prev example_page = example_page \<and>
   1 \<le> currentStep (user_clicks [Next, Next, Prev, Next] example_page) \<and>
   currentStep (user_clicks [Next, Next, Prev, Next] example_page) \<le> totalSteps example_page \<and>
   page_ok (example_page\<lparr>currentStep := 5\<rparr>) \<and>
   currentStep (example_page\<lparr>currentStep := 5\<rparr>) = totalSteps (example_page\<lparr>currentStep := 5\<rparr>) \<and>
   1 < currentStep (example_page\<lparr>currentStep := 5\<rparr>) \<and>
   user_click Next (example_page\<lparr>currentStep := 5\<rparr>) = example_page\<lparr>currentStep := 5\<rparr> \<and>
   currentStep (user_click Prev (example_page\<lparr>currentStep := 5\<rparr>)) =
     currentStep (example_page\<lparr>currentStep := 5\<rparr>) - 1"
proof -
  let ?last = "example_page\<lparr>currentStep := 5\<rparr>"
  have c: "currentStep example_page = 1" by (simp add: example_page_def)
  have r: "1 \<le> currentStep example_page" "currentStep example_page \<le> totalSteps example_page"
    "currentStep example_page < totalSteps example_page"
    by (simp_all add: c example_totalSteps)
  have t: "totalSteps ?last = 5"
    using example_totalSteps by (simp add: totalSteps_def)
  have r': "1 \<le> currentStep ?last" "currentStep ?last \<le> totalSteps ?last"
    "currentStep ?last = totalSteps ?last" "1 < currentStep ?last"
    by (simp_all add: t)
  note first = next_prev_navigation [OF example_page_ok r(1,2)]
  note last = next_prev_navigation [OF example_page_last_ok r'(1,2)]
  from first r(3) have 1: "currentStep (user_click Next example_page) = currentStep example_page + 1"
    by blast
  from first c have 2: "user_click Prev example_page = example_page"
    by blast
  from first have 3: "1 \<le> currentStep (user_clicks [Next, Next, Prev, Next] example_page)"
    "currentStep (user_clicks [Next, Next, Prev, Next] example_page) \<le> totalSteps example_page"
    by metis+
  from last r'(3) have 4: "user_click Next ?last = ?last"
    by blast
  from last r'(4) have 5: "currentStep (user_click Prev ?last) = currentStep ?last - 1"
    by blast
  show ?thesis
    using example_page_ok example_page_last_ok c r r' 1 2 3 4 5 by blast
qed

section \<open>Properties of the section toggles\<close>

lemma classList_toggle_mem:
  "(c \<in> set (classList (classList_toggle c b e))) = b"
  by (simp add: classList_toggle_def classList_add_mem classList_remove_same)

lemma run_toggles:
  assumes "list_all (\<lambda>h. case h of ToggleSection c s \<Rightarrow> c = cb | _ \<Rightarrow> False) hs"
    and "checked (heap s cb) = b"
    and "ToggleSection cb section \<in> set hs \<or> has_class s section ''visible'' = b"
  shows "checked (heap (foldl (\<lambda>s h. state_of (run_handler h s)) s hs) cb) = b \<and>
         has_class (foldl (\<lambda>s h. state_of (run_handler h s)) s hs) section ''visible'' = b"
  using assms
proof (induction hs arbitrary: s)
  case Nil
  then show ?case by simp
next
  case (Cons h hs)
  from Cons.prems(1) obtain x where h: "h = ToggleSection cb x"
    by (cases h) simp_all
  let ?s = "state_of (run_handler h s)"
  have s: "?s = update_el x (classList_toggle ''visible'' b) s"
    using h Cons.prems(2) by simp
  have c: "checked (heap ?s cb) = b"
    using Cons.prems(2) by (auto simp: s heap_update_el)
  have v: "ToggleSection cb section \<in> set hs \<or> has_class ?s section ''visible'' = b"
  proof (cases "x = section")
    case True
    then show ?thesis by (simp add: s has_class_def heap_update_el classList_toggle_mem)
  next
    case False
    with Cons.prems(3) h show ?thesis by (auto simp: s has_class_def heap_update_el)
  qed
  from Cons.prems(1) have "list_all (\<lambda>h. case h of ToggleSection c s \<Rightarrow> c = cb | _ \<Rightarrow> False) hs"
    by simp
  from Cons.IH [OF this c v] show ?case by simp
qed

lemma user_check_toggles:
  assumes "only_toggles cb st" and "ToggleSection cb section \<in> set (handlers_for Change cb st)"
  shows "checked (heap (user_check cb b st) cb) = b \<and>
         has_class (user_check cb b st) section ''visible'' = b"
proof -
  let ?s = "update_el cb (\<lambda>e. e\<lparr>checked := b\<rparr>) st"
  have "checked (heap ?s cb) = b" by (simp add: heap_update_el)
  moreover have "list_all (\<lambda>h. case h of ToggleSection c s \<Rightarrow> c = cb | _ \<Rightarrow> False)
      (handlers_for Change cb ?s)"
    using assms(1) by (simp add: only_toggles_def)
  moreover have "ToggleSection cb section \<in> set (handlers_for Change cb ?s)"
    using assms(2) by simp
  ultimately show ?thesis
    unfolding user_check_def dispatch_def by (intro run_toggles) simp_all
qed

text \<open>
  Claim C6. \<open>bindToggle(checkboxId, sectionId)\<close> returns without an error and changes
  nothing when one of the two elements is absent. When both exist it registers one
  \<open>change\<close> listener on the checkbox, and from then on every change of the checkbox (whose
  \<open>change\<close> listeners are such toggles) leaves the section with the class \<open>visible\<close> exactly
  when the checkbox is checked.
\<close>

theorem bindToggle_contract:
  "(getElementById checkboxId st = None \<or> getElementById sectionId st = None \<longrightarrow>
      bindToggle checkboxId sectionId st = Done st) \<and>
   (\<forall>cb section.
      getElementById checkboxId st = Some cb \<and> getElementById sectionId st = Some section \<longrightarrow>
        bindToggle checkboxId sectionId st =
          Done (addEventListener cb Change (ToggleSection cb section) st) \<and>
        handlers_for Change cb (state_of (bindToggle checkboxId sectionId st)) =
          handlers_for Change cb st @ [ToggleSection cb section] \<and>
        (\<forall>st' b.
           ToggleSection cb section \<in> set (handlers_for Change cb st') \<and> only_toggles cb st' \<longrightarrow>
             checked (heap (user_check cb b st') cb) = b \<and>
             has_class (user_check cb b st') section ''visible'' = b))"
proof -
  have "bindToggle checkboxId sectionId st = Done st"
    if "getElementById checkboxId st = None \<or> getElementById sectionId st = None"
    using that by (auto simp: bindToggle_def split: option.splits)
  moreover have "bindToggle checkboxId sectionId st =
          Done (addEventListener cb Change (ToggleSection cb sec) st) \<and>
        handlers_for Change cb (state_of (bindToggle checkboxId sectionId st)) =
          handlers_for Change cb st @ [ToggleSection cb sec]"
    if "getElementById checkboxId st = Some cb" "getElementById sectionId st = Some sec"
    for cb sec
    using that by (simp add: bindToggle_def handlers_for_def addEventListener_def)
  ultimately show ?thesis using user_check_toggles by blast
qed

lemma example_bound:
  "getElementById ''has_sailboat'' example_page = None"
  "getElementById ''has_vacation_home'' example_unloaded = Some 12"
  "getElementById ''vacation-home-section'' example_unloaded = Some 13"
  "handlers_for Change 12 example_unloaded = []"
  "only_toggles 12 example_page"
  "ToggleSection 12 13 \<in> set (handlers_for Change 12 example_page)"
  by code_simp+

theorem bindToggle_contract_witness:
  "getElementById ''has_sailboat'' example_page = None \<and>
   bindToggle ''has_sailboat'' ''sailboat-section'' example_page = Done example_page \<and>
   getElementById ''has_vacation_home'' example_unloaded = Some 12 \<and>
   getElementById ''vacation-home-section'' example_unloaded = Some 13 \<and>
   handlers_for Change 12
     (state_of (bindToggle ''has_vacation_home'' ''vacation-home-section'' example_unloaded)) =
     [ToggleSection 12 13] \<and>
   ToggleSection 12 13 \<in> set (handlers_for Change 12 example_page) \<and>
   only_toggles 12 example_page \<and>
   has_class (user_check 12 True example_page) 13 ''visible'' \<and>
   \<not> has_class (user_check 12 False (user_check 12 True example_page)) 13 ''visible''"
proof -
  note absent = bindToggle_contract [of "''has_sailboat''" example_page "''sailboat-section''"]
  note present = bindToggle_contract [of "''has_vacation_home''" example_unloaded "''vacation-home-section''"]
  from absent example_bound(1)
  have 1: "bindToggle ''has_sailboat'' ''sailboat-section'' example_page = Done example_page"
    by blast
  from present example_bound(2,3)
  have 2: "handlers_for Change 12
     (state_of (bindToggle ''has_vacation_home'' ''vacation-home-section'' example_unloaded)) =
     handlers_for Change 12 example_unloaded @ [ToggleSection 12 13]"
    and 3: "\<forall>st' b.
           ToggleSection 12 13 \<in> set (handlers_for Change 12 st') \<and> only_toggles 12 st' \<longrightarrow>
             checked (heap (user_check 12 b st') 12) = b \<and>
             has_class (user_check 12 b st') 13 ''visible'' = b"
    by blast+
  from 3 example_bound(5,6) have 4: "has_class (user_check 12 True example_page) 13 ''visible''"
    by blast
  have l: "handlers_for Change 12 (user_check 12 True example_page) = handlers_for Change 12 example_page"
    by code_simp
  from 3 [rule_format, of "user_check 12 True example_page" False] example_bound(5,6) l
  have 5: "\<not> has_class (user_check 12 False (user_check 12 True example_page)) 13 ''visible''"
    by (simp add: only_toggles_def)
  show ?thesis using example_bound 1 2 4 5 by simp
qed

section \<open>Properties of the children forms\<close>

lemma render_loop_stop: "\<not> js_lt i n \<Longrightarrow> render_loop i n c st = st"
  by (simp add: render_loop.simps)


lemma is_descendant_update_style [simp]:
  "is_descendant (update_el g (\<lambda>e. e\<lparr>style_display := d\<rparr>) st) c a = is_descendant st c a"
  by (simp add: is_descendant_def heap_update_el)

lemma is_descendant_clear [simp]:
  "is_descendant (clear_innerHTML c' st) c a = is_descendant st c a"
  by (simp add: is_descendant_def)

lemma doc_clear_innerHTML: "doc (clear_innerHTML c st) = filter (\<lambda>a. \<not> is_descendant st c a) (doc st)"
  by (simp add: clear_innerHTML_def)

text \<open>
  Claim C10. When the value of the child-count selector does not parse as an integer
  (\<open>parseInt\<close> gives \<open>NaN\<close>), \<open>renderChildren\<close> returns without an error (the container and
  the grandchildren section being present), and the page is then exactly as for the
  count 0: the container is cleared, no element and no listener is added, and the
  grandchildren section is hidden.
\<close>

theorem renderChildren_unparseable:
  assumes "numChildrenSelect st = Some sel" and "childrenContainer st = Some c"
    and "grandchildrenSection st = Some g"
  shows "(parseInt (el_value (heap st sel)) = NaN \<longrightarrow>
            renderChildren st =
              Done (update_el g (\<lambda>e. e\<lparr>style_display := ''none''\<rparr>) (clear_innerHTML c st))) \<and>
         (parseInt (el_value (heap st sel)) = Num 0 \<longrightarrow>
            renderChildren st =
              Done (update_el g (\<lambda>e. e\<lparr>style_display := ''none''\<rparr>) (clear_innerHTML c st))) \<and>
         filter (is_descendant (update_el g (\<lambda>e. e\<lparr>style_display := ''none''\<rparr>) (clear_innerHTML c st)) c)
           (doc (update_el g (\<lambda>e. e\<lparr>style_display := ''none''\<rparr>) (clear_innerHTML c st))) = [] \<and>
         next_node (update_el g (\<lambda>e. e\<lparr>style_display := ''none''\<rparr>) (clear_innerHTML c st)) =
           next_node st \<and>
         listeners (update_el g (\<lambda>e. e\<lparr>style_display := ''none''\<rparr>) (clear_innerHTML c st)) =
           listeners st \<and>
         style_display
           (heap (update_el g (\<lambda>e. e\<lparr>style_display := ''none''\<rparr>) (clear_innerHTML c st)) g) =
           ''none''"
proof -
  have nan: "renderChildren st =
      Done (update_el g (\<lambda>e. e\<lparr>style_display := ''none''\<rparr>) (clear_innerHTML c st))"
    if "parseInt (el_value (heap st sel)) = NaN"
    using that assms
    by (simp add: renderChildren_Done render_loop_stop js_lt_def js_positive_def)
  have zero: "renderChildren st =
      Done (update_el g (\<lambda>e. e\<lparr>style_display := ''none''\<rparr>) (clear_innerHTML c st))"
    if "parseInt (el_value (heap st sel)) = Num 0"
    using that assms
    by (simp add: renderChildren_Done render_loop_stop js_lt_def js_positive_def)
  have "filter (is_descendant st c) (filter (\<lambda>a. \<not> is_descendant st c a) (doc st)) = []"
    by (simp add: filter_empty_conv)
  then show ?thesis
    using nan zero by (simp add: doc_clear_innerHTML heap_update_el)
qed

lemma example_unparseable:
  "numChildrenSelect (update_el 15 (\<lambda>e. e\<lparr>el_value := ''many''\<rparr>) example_page) = Some 15"
  "childrenContainer (update_el 15 (\<lambda>e. e\<lparr>el_value := ''many''\<rparr>) example_page) = Some 17"
  "grandchildrenSection (update_el 15 (\<lambda>e. e\<lparr>el_value := ''many''\<rparr>) example_page) = Some 18"
  "parseInt (el_value (heap (update_el 15 (\<lambda>e. e\<lparr>el_value := ''many''\<rparr>) example_page) 15)) = NaN"
  "numChildrenSelect (update_el 15 (\<lambda>e. e\<lparr>el_value := ''0''\<rparr>) example_page) = Some 15"
  "childrenContainer (update_el 15 (\<lambda>e. e\<lparr>el_value := ''0''\<rparr>) example_page) = Some 17"
  "grandchildrenSection (update_el 15 (\<lambda>e. e\<lparr>el_value := ''0''\<rparr>) example_page) = Some 18"
  "parseInt (el_value (heap (update_el 15 (\<lambda>e. e\<lparr>el_value := ''0''\<rparr>) example_page) 15)) = Num 0"
  by code_simp+

theorem renderChildren_unparseable_witness:
  "numChildrenSelect (update_el 15 (\<lambda>e. e\<lparr>el_value := ''many''\<rparr>) example_page) = Some 15 \<and>
   childrenContainer (update_el 15 (\<lambda>e. e\<lparr>el_value := ''many''\<rparr>) example_page) = Some 17 \<and>
   grandchildrenSection (update_el 15 (\<lambda>e. e\<lparr>el_value := ''many''\<rparr>) example_page) = Some 18 \<and>
   parseInt (el_value (heap (update_el 15 (\<lambda>e. e\<lparr>el_value := ''many''\<rparr>) example_page) 15)) = NaN \<and>
   renderChildren (update_el 15 (\<lambda>e. e\<lparr>el_value := ''many''\<rparr>) example_page) =
     Done (update_el 18 (\<lambda>e. e\<lparr>style_display := ''none''\<rparr>)
            (clear_innerHTML 17 (update_el 15 (\<lambda>e. e\<lparr>el_value := ''many''\<rparr>) example_page))) \<and>
   parseInt (el_value (heap (update_el 15 (\<lambda>e. e\<lparr>el_value := ''0''\<rparr>) example_page) 15)) = Num 0 \<and>
   renderChildren (update_el 15 (\<lambda>e. e\<lparr>el_value := ''0''\<rparr>) example_page) =
     Done (update_el 18 (\<lambda>e. e\<lparr>style_display := ''none''\<rparr>)
            (clear_innerHTML 17 (update_el 15 (\<lambda>e. e\<lparr>el_value := ''0''\<rparr>) example_page)))"
  using renderChildren_unparseable [OF example_unparseable(1,2,3)]
    renderChildren_unparseable [OF example_unparseable(5,6,7)]
    example_unparseable
  by blast

lemma length_childFormHTML [simp]: "length (childFormHTML locs k) = 9"
  by (simp add: childFormHTML_def)





















lemma rendered_element_fields [simp]:
  "el_id (rendered_element st c k j) = el_id (fst (childFormHTML (ALL_LOCATIONS st) k ! j))"
  "classList (rendered_element st c k j) = classList (fst (childFormHTML (ALL_LOCATIONS st) k ! j))"
  "data_child (rendered_element st c k j) = data_child (fst (childFormHTML (ALL_LOCATIONS st) k ! j))"
  "checked (rendered_element st c k j) = checked (fst (childFormHTML (ALL_LOCATIONS st) k ! j))"
  by (simp_all add: rendered_element_def)


















lemma listeners_clear_child [simp]: "child_listeners base 0 = []"
  by (simp add: child_listeners_def)





lemma getElementById_update_style [simp]:
  "getElementById i (update_el g (\<lambda>e. e\<lparr>style_display := d\<rparr>) s) = getElementById i s"
proof -
  have "el_id (heap (update_el g (\<lambda>e. e\<lparr>style_display := d\<rparr>) s) a) = el_id (heap s a)" for a
    by (simp add: heap_update_el)
  then show ?thesis by (simp add: getElementById_def)
qed

lemma handlers_for_update_style [simp]:
  "handlers_for ev a (st\<lparr>heap := h\<rparr>) = handlers_for ev a st"
  by (simp add: handlers_for_def)

lemma classList_toggle_const [simp]:
  "classList_toggle c False = classList_remove c" "classList_toggle c True = classList_add c"
  by (rule ext, simp add: classList_toggle_def)+








end
